theory Spec2Isabelle
  imports Complex_Main
begin

section \<open>The failure tracker (class APIState of api.py)\<close>

text \<open>
  Timestamps are the readings of \<^verbatim>\<open>time.time()\<close>, seconds since the epoch, taken here as
  real numbers. Every function that reads the clock receives the reading as its first
  argument \<open>now\<close>. The counter is a Python integer, hence \<open>int\<close>.
\<close>

record APIState =
  paused :: bool
  consecutive_failures :: int
  auto_pause_until :: "real option"
  last_error :: "string option"

definition fresh_state :: APIState where
  "fresh_state = \<lparr>paused = False, consecutive_failures = 0,
                  auto_pause_until = None, last_error = None\<rparr>"

text \<open>
  Truth value of an \<^verbatim>\<open>Optional[float]\<close> in a Python condition: \<^verbatim>\<open>None\<close> and \<^verbatim>\<open>0.0\<close>
  are both false.
\<close>

definition should_skip :: "real \<Rightarrow> APIState \<Rightarrow> bool" where
  "should_skip now st =
     (if paused st then True
      else case auto_pause_until st of
             None \<Rightarrow> False
           | Some u \<Rightarrow> if u \<noteq> 0 \<and> now < u then True else False)"

definition record_failure :: "real \<Rightarrow> string \<Rightarrow> APIState \<Rightarrow> APIState" where
  "record_failure now err st =
     (let st1 = st\<lparr>consecutive_failures := consecutive_failures st + 1\<rparr>;
          st2 = st1\<lparr>last_error := Some err\<rparr>
      in if consecutive_failures st2 \<ge> 10
         then st2\<lparr>auto_pause_until := Some (now + 30 * 60)\<rparr>
         else st2)"

definition record_success :: "APIState \<Rightarrow> APIState" where
  "record_success st = st\<lparr>consecutive_failures := 0, last_error := None\<rparr>"

definition resume :: "APIState \<Rightarrow> APIState" where
  "resume st = st\<lparr>paused := False, auto_pause_until := None, consecutive_failures := 0\<rparr>"

text \<open>Python's \<^verbatim>\<open>int(x)\<close> on a float: truncation towards zero.\<close>

definition py_int :: "real \<Rightarrow> int" where
  "py_int x = (if 0 \<le> x then \<lfloor>x\<rfloor> else \<lceil>x\<rceil>)"

definition get_auto_resume_remaining :: "real \<Rightarrow> APIState \<Rightarrow> int option" where
  "get_auto_resume_remaining now st =
     (case auto_pause_until st of
        None \<Rightarrow> None
      | Some u \<Rightarrow> if u \<noteq> 0
                 then (let remaining = u - now in Some (max 0 (py_int remaining)))
                 else None)"

text \<open>
  A run of \<^verbatim>\<open>record_failure\<close> calls, each with the clock reading and the message of that
  call, oldest first.
\<close>

definition record_failures :: "(real \<times> string) list \<Rightarrow> APIState \<Rightarrow> APIState" where
  "record_failures fs st = fold (\<lambda>(t, e) s. record_failure t e s) fs st"


section \<open>JSON values as Python objects\<close>

text \<open>
  What \<^verbatim>\<open>response.json()\<close> and \<^verbatim>\<open>json.load\<close> return. A \<^verbatim>\<open>dict\<close> is an association list
  in insertion order, looked up with \<open>map_of\<close>; a Python \<^verbatim>\<open>float\<close> is taken as a real number
  (infinities and NaN are outside the model); \<^verbatim>\<open>None\<close> is \<open>JNull\<close>. What Python's own
  library computes on strings and numbers (\<^verbatim>\<open>str.lower\<close>, \<^verbatim>\<open>float\<close>, \<^verbatim>\<open>str\<close>) is a parameter
  of the functions below.
\<close>

datatype json =
    JNull
  | JBool bool
  | JInt int
  | JFloat real
  | JStr string
  | JArr "json list"
  | JObj "(string \<times> json) list"

text \<open>
  What an observer raises: a \<^verbatim>\<open>RateLimitError\<close> or any other exception \<open>e\<close>, each with
  \<^verbatim>\<open>str(e)\<close>.
\<close>

datatype raised =
    RaisedRateLimit string
  | RaisedOther string

datatype exn =
    TypeError
  | KeyError
  | AttributeError
  | ValueError
  | OverflowError
  | UnicodeDecodeError
  | OSError
  | ObserverRaised raised

text \<open>Truth value of an object in a Python condition (\<^verbatim>\<open>if data:\<close>).\<close>

fun truthy :: "json \<Rightarrow> bool" where
  "truthy JNull = False"
| "truthy (JBool b) = b"
| "truthy (JInt i) = (i \<noteq> 0)"
| "truthy (JFloat x) = (x \<noteq> 0)"
| "truthy (JStr s) = (s \<noteq> [])"
| "truthy (JArr xs) = (xs \<noteq> [])"
| "truthy (JObj kvs) = (kvs \<noteq> [])"

text \<open>\<^verbatim>\<open>obj[key]\<close> with a string key.\<close>

fun py_getitem :: "json \<Rightarrow> string \<Rightarrow> exn + json" where
  "py_getitem (JObj kvs) k = (case map_of kvs k of None \<Rightarrow> Inl KeyError | Some v \<Rightarrow> Inr v)"
| "py_getitem _ k = Inl TypeError"

fun starts_with :: "string \<Rightarrow> string \<Rightarrow> bool" where
  "starts_with [] hay = True"
| "starts_with (x # xs) [] = False"
| "starts_with (x # xs) (y # ys) = (x = y \<and> starts_with xs ys)"

fun str_contains :: "string \<Rightarrow> string \<Rightarrow> bool" where
  "str_contains [] needle = (needle = [])"
| "str_contains (h # hs) needle = (starts_with needle (h # hs) \<or> str_contains hs needle)"

text \<open>
  \<^verbatim>\<open>key in obj\<close> with a string key: key membership for a dict, element membership for
  a list, substring test for a string, \<^verbatim>\<open>TypeError\<close> for everything else.
\<close>

fun py_contains :: "json \<Rightarrow> string \<Rightarrow> exn + bool" where
  "py_contains (JObj kvs) k = Inr (k \<in> fst ` set kvs)"
| "py_contains (JArr xs) k = Inr (JStr k \<in> set xs)"
| "py_contains (JStr s) k = Inr (str_contains s k)"
| "py_contains _ k = Inl TypeError"

text \<open>Iterating an object (\<^verbatim>\<open>for coin in coin_list\<close>): a dict yields its keys, a string its characters.\<close>

fun py_iter :: "json \<Rightarrow> exn + json list" where
  "py_iter (JArr xs) = Inr xs"
| "py_iter (JObj kvs) = Inr (map (\<lambda>kv. JStr (fst kv)) kvs)"
| "py_iter (JStr s) = Inr (map (\<lambda>ch. JStr [ch]) s)"
| "py_iter _ = Inl TypeError"

text \<open>
  \<^verbatim>\<open>obj.lower()\<close>: only strings have the method; \<open>low\<close> is \<^verbatim>\<open>str.lower\<close>, which knows all
  of Unicode.
\<close>

fun py_lower :: "(string \<Rightarrow> string) \<Rightarrow> json \<Rightarrow> exn + string" where
  "py_lower low (JStr s) = Inr (low s)"
| "py_lower low _ = Inl AttributeError"

text \<open>
  \<^verbatim>\<open>float(obj)\<close>. A float is itself; an integer is rounded to the nearest double by \<open>conv\<close>,
  which is \<open>None\<close> beyond the double range (\<^verbatim>\<open>OverflowError\<close>); a string is parsed by
  \<open>parse\<close>, which is \<open>None\<close> on a string that is not a number (\<^verbatim>\<open>ValueError\<close>); \<^verbatim>\<open>None\<close>,
  lists and dicts raise \<^verbatim>\<open>TypeError\<close>.
\<close>

fun py_float :: "(int \<Rightarrow> real option) \<Rightarrow> (string \<Rightarrow> real option) \<Rightarrow> json \<Rightarrow> exn + real" where
  "py_float conv parse (JFloat x) = Inr x"
| "py_float conv parse (JInt i) = (case conv i of None \<Rightarrow> Inl OverflowError | Some x \<Rightarrow> Inr x)"
| "py_float conv parse (JBool b) = Inr (if b then 1 else 0)"
| "py_float conv parse (JStr s) = (case parse s of None \<Rightarrow> Inl ValueError | Some x \<Rightarrow> Inr x)"
| "py_float conv parse _ = Inl TypeError"

text \<open>\<^verbatim>\<open>str(obj)\<close>: a string is itself, anything else is printed by Python (a parameter).\<close>

definition py_str :: "(json \<Rightarrow> string) \<Rightarrow> json \<Rightarrow> string" where
  "py_str repr v = (case v of JStr s \<Rightarrow> s | _ \<Rightarrow> repr v)"

text \<open>\<^verbatim>\<open>obj == 429\<close>: Python compares numbers by value, so \<^verbatim>\<open>429.0 == 429\<close>.\<close>

definition equals_429 :: "json \<Rightarrow> bool" where
  "equals_429 v = (v = JInt 429 \<or> v = JFloat 429)"

section \<open>The client (class CoinGeckoAPI of api.py)\<close>

subsection \<open>The network, the disk, the time zone and the observer\<close>

text \<open>
  One network call (\<^verbatim>\<open>session.get\<close>) ends in one of three ways: it raises a
  \<^verbatim>\<open>requests.RequestException\<close> (connection error, timeout), it raises some other exception,
  or it returns a response. A response carries its status code, the text of the
  \<^verbatim>\<open>HTTPError\<close> that \<^verbatim>\<open>raise_for_status\<close> would raise, and its body: the parsed JSON, or the
  text of the decoding error that \<^verbatim>\<open>response.json()\<close> raises (a \<^verbatim>\<open>RequestException\<close> too).
\<close>

record response =
  status_code :: int
  http_error :: string
  body :: "string + json"

datatype attempt =
    RequestError string
  | OtherError string
  | Reply response

type_synonym request = "string \<times> (string \<times> string) list"

datatype write_result = Written | NotOpened | Truncated

text \<open>
  The environment of a run: the answer and the duration of the n-th network call made
  since the start; Python's printer, float parser, integer-to-float conversion and
  \<^verbatim>\<open>str.lower\<close>; the offset of local time from UTC, in seconds, at each instant (it
  changes with daylight saving); what happens when the cache file of a name is opened
  for writing; and whether looking at the cache file of a name (\<^verbatim>\<open>exists()\<close>, \<^verbatim>\<open>stat()\<close>)
  raises \<^verbatim>\<open>OSError\<close>, as it does in a directory that may not be searched.
\<close>

record env =
  net :: "nat \<Rightarrow> request \<Rightarrow> attempt \<times> real"
  py_repr :: "json \<Rightarrow> string"
  parse_float :: "string \<Rightarrow> real option"
  float_of_int :: "int \<Rightarrow> real option"
  str_lower :: "string \<Rightarrow> string"
  utcoffset :: "real \<Rightarrow> real"
  disk :: "string \<Rightarrow> write_result"
  stat_raises :: "string \<Rightarrow> bool"

text \<open>
  The attributes of the client that a call only reads. The observer is a function of the
  state it is shown: \<open>None\<close> when it returns, \<open>Some x\<close> when it raises \<open>x\<close>.
\<close>

record client =
  retry_attempts :: int
  retry_wait :: int
  on_state_change :: "(APIState \<Rightarrow> raised option) option"

text \<open>
  A cache file: its modification time (the instant of the last write) and what reading it
  gives. \<^verbatim>\<open>_load_cache\<close> opens the file as UTF-8 text and parses it: the parsed value; or an \<^verbatim>\<open>IOError\<close> or a
  \<^verbatim>\<open>JSONDecodeError\<close>, which it catches; or a \<^verbatim>\<open>UnicodeDecodeError\<close> for bytes that are not
  UTF-8, which it does not catch.
\<close>

datatype file_content = Json json | Unreadable | NotUtf8

record cache_file =
  mtime :: real
  content :: file_content

text \<open>
  What a call changes: the tracker, the cache directory (by cache name; the path is
  \<^verbatim>\<open>cache_dir / f"{name}.json"\<close>), the clock, and the log of the requests sent.
\<close>

record world =
  state :: APIState
  files :: "string \<rightharpoonup> cache_file"
  now :: real
  sent :: "request list"

subsection \<open>The cache\<close>

definition CACHE_DURATION :: real where
  "CACHE_DURATION = 24 * 3600"

text \<open>
  \<^verbatim>\<open>datetime.fromtimestamp(t)\<close> and \<^verbatim>\<open>datetime.now()\<close> are naive local times: the instant
  plus the offset of local time at that instant, as a number of seconds.
\<close>

definition local_time :: "env \<Rightarrow> real \<Rightarrow> real" where
  "local_time e t = t + utcoffset e t"

definition is_cache_valid :: "env \<Rightarrow> real \<Rightarrow> cache_file option \<Rightarrow> bool" where
  "is_cache_valid e t f =
     (case f of
        None \<Rightarrow> False
      | Some cf \<Rightarrow> local_time e t - local_time e (mtime cf) < CACHE_DURATION)"

text \<open>
  \<^verbatim>\<open>_load_cache\<close> calls \<^verbatim>\<open>_is_cache_valid\<close> before its \<^verbatim>\<open>try\<close>: an \<^verbatim>\<open>OSError\<close> of \<^verbatim>\<open>exists()\<close> or
  \<^verbatim>\<open>stat()\<close> leaves it, as does the \<^verbatim>\<open>UnicodeDecodeError\<close> of the read, which the \<^verbatim>\<open>except\<close>
  clause does not name.
\<close>

definition load_cache ::
  "env \<Rightarrow> real \<Rightarrow> string \<Rightarrow> (string \<rightharpoonup> cache_file) \<Rightarrow> exn + json" where
  "load_cache e t name fs =
     (if stat_raises e name then Inl OSError
      else if is_cache_valid e t (fs name)
      then (case fs name of
              Some cf \<Rightarrow>
                (case content cf of
                   Json data \<Rightarrow> Inr data
                 | Unreadable \<Rightarrow> Inr JNull
                 | NotUtf8 \<Rightarrow> Inl UnicodeDecodeError)
            | None \<Rightarrow> Inr JNull)
      else Inr JNull)"

definition save_cache ::
  "env \<Rightarrow> real \<Rightarrow> string \<Rightarrow> json \<Rightarrow> (string \<rightharpoonup> cache_file) \<Rightarrow> (string \<rightharpoonup> cache_file)" where
  "save_cache e t name data fs =
     (case disk e name of
        Written \<Rightarrow> fs(name \<mapsto> \<lparr>mtime = t, content = Json data\<rparr>)
      | NotOpened \<Rightarrow> fs
      | Truncated \<Rightarrow> fs(name \<mapsto> \<lparr>mtime = t, content = Unreadable\<rparr>))"

subsection \<open>The request pipeline\<close>

definition notify_state_change :: "client \<Rightarrow> APIState \<Rightarrow> raised option" where
  "notify_state_change c st = (case on_state_change c of None \<Rightarrow> None | Some f \<Rightarrow> f st)"

datatype outcome =
    Success json
  | RateLimit string
  | Retryable string
  | Fatal string

text \<open>The check of the JSON body for an error the provider reports inside a reply.\<close>

definition embedded_rate_limit :: "(json \<Rightarrow> string) \<Rightarrow> json \<Rightarrow> string option" where
  "embedded_rate_limit repr data =
     (case data of
        JObj kvs \<Rightarrow>
          (case map_of kvs ''status'' of
             None \<Rightarrow> None
           | Some status \<Rightarrow>
               (case status of
                  JObj skvs \<Rightarrow>
                    if equals_429 (case map_of skvs ''error_code'' of None \<Rightarrow> JNull | Some v \<Rightarrow> v)
                    then Some (py_str repr
                                 (case map_of skvs ''error_message'' of
                                    None \<Rightarrow> JStr ''Rate limited'' | Some v \<Rightarrow> v))
                    else None
                | _ \<Rightarrow> None))
      | _ \<Rightarrow> None)"

text \<open>The body of \<^verbatim>\<open>do_request\<close>, on the answer of the network call it makes.\<close>

definition do_request :: "(json \<Rightarrow> string) \<Rightarrow> attempt \<Rightarrow> outcome" where
  "do_request repr a =
     (case a of
        RequestError m \<Rightarrow> Retryable m
      | OtherError m \<Rightarrow> Fatal m
      | Reply r \<Rightarrow>
          if status_code r = 429 then RateLimit ''Rate limited by API''
          else if 400 \<le> status_code r \<and> status_code r < 600 then Retryable (http_error r)
          else (case body r of
                  Inl m \<Rightarrow> Retryable m
                | Inr data \<Rightarrow>
                    (case embedded_rate_limit repr data of
                       Some m \<Rightarrow> RateLimit m
                     | None \<Rightarrow> Success data)))"

definition one_attempt :: "env \<Rightarrow> request \<Rightarrow> world \<Rightarrow> outcome \<times> world" where
  "one_attempt e rq w =
     (let (a, took) = net e (length (sent w)) rq;
          w1 = w\<lparr>now := now w + took, sent := sent w @ [rq]\<rparr>
      in (do_request (py_repr e) a, w1))"

text \<open>
  The \<^verbatim>\<open>tenacity\<close> decorator: \<^verbatim>\<open>stop_after_attempt(n)\<close> stops once the attempt number is at
  least \<open>n\<close>, so the loop below runs with \<open>nat (n - 1)\<close> retries left; only a
  \<^verbatim>\<open>RequestException\<close> is retried, after \<^verbatim>\<open>time.sleep(retry_wait)\<close>, which raises
  \<^verbatim>\<open>ValueError\<close> on a negative length; \<^verbatim>\<open>reraise=True\<close> hands the last exception on.
\<close>

fun attempts :: "env \<Rightarrow> client \<Rightarrow> request \<Rightarrow> nat \<Rightarrow> world \<Rightarrow> outcome \<times> world" where
  "attempts e c rq 0 w = one_attempt e rq w"
| "attempts e c rq (Suc r) w =
     (case one_attempt e rq w of
        (Retryable m, w1) \<Rightarrow>
          if retry_wait c < 0 then (Fatal ''sleep length must be non-negative'', w1)
          else attempts e c rq r (w1\<lparr>now := now w1 + real_of_int (retry_wait c)\<rparr>)
      | (out, w1) \<Rightarrow> (out, w1))"

text \<open>
  The two \<^verbatim>\<open>except\<close> branches of \<^verbatim>\<open>_make_request\<close>: record the failure, notify, return
  \<^verbatim>\<open>None\<close>. An exception of the observer leaves the function from here.
\<close>

definition fail_with :: "client \<Rightarrow> string \<Rightarrow> world \<Rightarrow> (exn + json) \<times> world" where
  "fail_with c msg w =
     (let w1 = w\<lparr>state := record_failure (now w) msg (state w)\<rparr>
      in case notify_state_change c (state w1) of
           None \<Rightarrow> (Inr JNull, w1)
         | Some x \<Rightarrow> (Inl (ObserverRaised x), w1))"

text \<open>
  The message \<^verbatim>\<open>_make_request\<close> records for an exception raised inside its \<^verbatim>\<open>try\<close> block:
  \<^verbatim>\<open>f"Rate limited: {e}"\<close> in the branch for \<^verbatim>\<open>RateLimitError\<close>, \<^verbatim>\<open>str(e)\<close> in the other.
\<close>

fun raised_text :: "raised \<Rightarrow> string" where
  "raised_text (RaisedRateLimit m) = ''Rate limited: '' @ m"
| "raised_text (RaisedOther m) = m"


definition make_request :: "env \<Rightarrow> client \<Rightarrow> request \<Rightarrow> world \<Rightarrow> (exn + json) \<times> world" where
  "make_request e c rq w =
     (if should_skip (now w) (state w) then (Inr JNull, w)
      else case attempts e c rq (nat (retry_attempts c - 1)) w of
             (Success data, w1) \<Rightarrow>
               (let w2 = w1\<lparr>state := record_success (state w1)\<rparr>
                in case notify_state_change c (state w2) of
                     None \<Rightarrow> (Inr data, w2)
                   | Some x \<Rightarrow> fail_with c (raised_text x) w2)
           | (RateLimit m, w1) \<Rightarrow> fail_with c (''Rate limited: '' @ m) w1
           | (Retryable m, w1) \<Rightarrow> fail_with c m w1
           | (Fatal m, w1) \<Rightarrow> fail_with c m w1)"

subsection \<open>The coin list\<close>

definition BASE_URL :: string where
  "BASE_URL = ''https://api.coingecko.com/api/v3''"

definition default_coins :: json where
  "default_coins =
     JArr [JObj [(''id'', JStr ''bitcoin''), (''symbol'', JStr ''btc''), (''name'', JStr ''Bitcoin'')],
           JObj [(''id'', JStr ''ethereum''), (''symbol'', JStr ''eth''), (''name'', JStr ''Ethereum'')]]"

definition get_coin_list :: "env \<Rightarrow> client \<Rightarrow> world \<Rightarrow> (exn + json) \<times> world" where
  "get_coin_list e c w =
     (case load_cache e (now w) ''coin_list'' (files w) of
        Inl x \<Rightarrow> (Inl x, w)
      | Inr cached \<Rightarrow>
          if truthy cached then (Inr cached, w)
          else case make_request e c (BASE_URL @ ''/coins/list'', []) w of
                 (Inl x, w1) \<Rightarrow> (Inl x, w1)
               | (Inr data, w1) \<Rightarrow>
                   if truthy data
                   then (Inr data,
                         w1\<lparr>files := save_cache e (now w1) ''coin_list'' data (files w1)\<rparr>)
                   else (Inr default_coins, w1))"

subsection \<open>Prices\<close>

text \<open>
  One step of the comprehension \<^verbatim>\<open>{coin["symbol"].lower(): coin["id"] for coin in coin_list}\<close>;
  the key is evaluated before the value.
\<close>

definition coin_entry :: "(string \<Rightarrow> string) \<Rightarrow> json \<Rightarrow> exn + (string \<times> json)" where
  "coin_entry low coin =
     (case py_getitem coin ''symbol'' of
        Inl x \<Rightarrow> Inl x
      | Inr symbol \<Rightarrow>
          (case py_lower low symbol of
             Inl x \<Rightarrow> Inl x
           | Inr k \<Rightarrow>
               (case py_getitem coin ''id'' of
                  Inl x \<Rightarrow> Inl x
                | Inr v \<Rightarrow> Inr (k, v))))"

fun index_coins ::
  "(string \<Rightarrow> string) \<Rightarrow> json list \<Rightarrow> (string \<rightharpoonup> json) \<Rightarrow> exn + (string \<rightharpoonup> json)" where
  "index_coins low [] m = Inr m"
| "index_coins low (coin # coins) m =
     (case coin_entry low coin of
        Inl x \<Rightarrow> Inl x
      | Inr (k, v) \<Rightarrow> index_coins low coins (m(k \<mapsto> v)))"

definition symbol_to_id :: "(string \<Rightarrow> string) \<Rightarrow> json \<Rightarrow> exn + (string \<rightharpoonup> json)" where
  "symbol_to_id low coin_list =
     (case py_iter coin_list of
        Inl x \<Rightarrow> Inl x
      | Inr coins \<Rightarrow> index_coins low coins Map.empty)"

text \<open>
  The loop over the requested symbols, building \<^verbatim>\<open>ids\<close> and \<^verbatim>\<open>symbol_map\<close>. An id that is
  not a string raises \<^verbatim>\<open>TypeError\<close> before any request is built: a list or a dict at once,
  as a key of \<^verbatim>\<open>symbol_map\<close>, anything else in \<^verbatim>\<open>",".join(ids)\<close>, which is reached since
  \<^verbatim>\<open>ids\<close> is then not empty.
\<close>

fun resolve ::
  "(string \<Rightarrow> string) \<Rightarrow> (string \<rightharpoonup> json) \<Rightarrow> string list
     \<Rightarrow> string list \<times> (string \<rightharpoonup> string)
     \<Rightarrow> exn + string list \<times> (string \<rightharpoonup> string)" where
  "resolve low s2i [] acc = Inr acc"
| "resolve low s2i (symbol # symbols) (ids, symbol_map) =
     (let sym_lower = low symbol
      in case s2i sym_lower of
           None \<Rightarrow> resolve low s2i symbols (ids, symbol_map)
         | Some coin_id \<Rightarrow>
             (case coin_id of
                JStr i \<Rightarrow> resolve low s2i symbols (ids @ [i], symbol_map(i \<mapsto> sym_lower))
              | _ \<Rightarrow> Inl TypeError))"

fun join :: "string \<Rightarrow> string list \<Rightarrow> string" where
  "join sep [] = []"
| "join sep [x] = x"
| "join sep (x # y # ys) = x @ sep @ join sep (y # ys)"

definition price_request :: "string list \<Rightarrow> string \<Rightarrow> request" where
  "price_request ids vs_currency =
     (BASE_URL @ ''/simple/price'', [(''ids'', join '','' ids), (''vs_currencies'', vs_currency)])"

text \<open>\<^verbatim>\<open>data.items()\<close>: only a dict has the method.\<close>

fun py_items :: "json \<Rightarrow> exn + (string \<times> json) list" where
  "py_items (JObj kvs) = Inr kvs"
| "py_items _ = Inl AttributeError"

text \<open>The loop that maps the ids of the reply back to the requested symbols.\<close>

fun map_back ::
  "env \<Rightarrow> (string \<rightharpoonup> string) \<Rightarrow> string \<Rightarrow> (string \<times> json) list
     \<Rightarrow> (string \<rightharpoonup> real) \<Rightarrow> exn + (string \<rightharpoonup> real)" where
  "map_back e symbol_map vs [] result = Inr result"
| "map_back e symbol_map vs ((coin_id, prices) # items) result =
     (case symbol_map coin_id of
        None \<Rightarrow> map_back e symbol_map vs items result
      | Some symbol \<Rightarrow>
          (case py_contains prices vs of
             Inl x \<Rightarrow> Inl x
           | Inr False \<Rightarrow> map_back e symbol_map vs items result
           | Inr True \<Rightarrow>
               (case py_getitem prices vs of
                  Inl x \<Rightarrow> Inl x
                | Inr v \<Rightarrow>
                    (case py_float (float_of_int e) (parse_float e) v of
                       Inl x \<Rightarrow> Inl x
                     | Inr p \<Rightarrow> map_back e symbol_map vs items (result(symbol \<mapsto> p))))))"

definition get_prices ::
  "env \<Rightarrow> client \<Rightarrow> string list \<Rightarrow> string \<Rightarrow> world \<Rightarrow> (exn + (string \<rightharpoonup> real)) \<times> world" where
  "get_prices e c symbols vs_currency w =
     (if symbols = [] then (Inr Map.empty, w)
      else if should_skip (now w) (state w) then (Inr Map.empty, w)
      else case get_coin_list e c w of
             (Inl x, w1) \<Rightarrow> (Inl x, w1)
           | (Inr coin_list, w1) \<Rightarrow>
               (case symbol_to_id (str_lower e) coin_list of
                  Inl x \<Rightarrow> (Inl x, w1)
                | Inr s2i \<Rightarrow>
                    (case resolve (str_lower e) s2i symbols ([], Map.empty) of
                       Inl x \<Rightarrow> (Inl x, w1)
                     | Inr (ids, symbol_map) \<Rightarrow>
                         if ids = [] then (Inr Map.empty, w1)
                         else case make_request e c (price_request ids vs_currency) w1 of
                                (Inl x, w2) \<Rightarrow> (Inl x, w2)
                              | (Inr data, w2) \<Rightarrow>
                                  if \<not> truthy data then (Inr Map.empty, w2)
                                  else (case py_items data of
                                          Inl x \<Rightarrow> (Inl x, w2)
                                        | Inr items \<Rightarrow>
                                            (map_back e symbol_map vs_currency
                                               items Map.empty, w2)))))"

definition get_price ::
  "env \<Rightarrow> client \<Rightarrow> string \<Rightarrow> string \<Rightarrow> world \<Rightarrow> (exn + real option) \<times> world" where
  "get_price e c symbol vs_currency w =
     (case get_prices e c [symbol] vs_currency w of
        (Inl x, w1) \<Rightarrow> (Inl x, w1)
      | (Inr prices, w1) \<Rightarrow> (Inr (prices (str_lower e symbol)), w1))"

section \<open>Shapes of provider data, and example runs\<close>






text \<open>
  For the example runs, \<^verbatim>\<open>str.lower\<close> on ASCII strings, which is all the examples use, and
  the conversion of integers small enough to be doubles themselves.
\<close>

definition ascii_lower_char :: "char \<Rightarrow> char" where
  "ascii_lower_char ch =
     (case map_of (zip ''ABCDEFGHIJKLMNOPQRSTUVWXYZ'' ''abcdefghijklmnopqrstuvwxyz'') ch of
        None \<Rightarrow> ch
      | Some l \<Rightarrow> l)"

definition ascii_lower :: "string \<Rightarrow> string" where
  "ascii_lower s = map ascii_lower_char s"

definition small_int :: "int \<Rightarrow> real option" where
  "small_int i = Some (real_of_int i)"

text \<open>
  A client with the default retry settings and no observer, one whose observer always
  raises, and a world at time 1000 with a fresh tracker and an empty cache directory.
\<close>

definition plain_client :: client where
  "plain_client = \<lparr>retry_attempts = 3, retry_wait = 5, on_state_change = None\<rparr>"

definition raising_client :: client where
  "raising_client =
     \<lparr>retry_attempts = 3, retry_wait = 5,
      on_state_change = Some (\<lambda>st. Some (RaisedOther ''observer failed''))\<rparr>"

definition start :: world where
  "start = \<lparr>state = fresh_state, files = Map.empty, now = 1000, sent = []\<rparr>"

definition ok_reply :: "json \<Rightarrow> attempt \<times> real" where
  "ok_reply data = (Reply \<lparr>status_code = 200, http_error = [], body = Inr data\<rparr>, 1)"

definition two_coins :: json where
  "two_coins =
     JArr [JObj [(''id'', JStr ''bitcoin''), (''symbol'', JStr ''btc''), (''name'', JStr ''Bitcoin'')],
           JObj [(''id'', JStr ''solana''), (''symbol'', JStr ''sol''), (''name'', JStr ''Solana'')]]"

definition btc_quote :: json where
  "btc_quote = JObj [(''bitcoin'', JObj [(''usd'', JInt 50000)])]"

definition null_quote :: json where
  "null_quote = JObj [(''bitcoin'', JObj [(''usd'', JNull)])]"

definition flat_quote :: json where
  "flat_quote = JObj [(''bitcoin'', JInt 50000)]"

text \<open>
  Environments, all in a zone without daylight saving unless said otherwise: one with
  the network answers \<open>answers\<close>; no connection at all; a provider that answers every
  call with status 429; a provider that answers with the body \<open>coins\<close> to the coin-list
  request and with the body \<open>prices\<close> to any other.
\<close>

definition env_of :: "(nat \<Rightarrow> request \<Rightarrow> attempt \<times> real) \<Rightarrow> env" where
  "env_of answers =
     \<lparr>net = answers, py_repr = (\<lambda>v. ''?''), parse_float = (\<lambda>s. None),
      float_of_int = small_int, str_lower = ascii_lower, utcoffset = (\<lambda>t. 0),
      disk = (\<lambda>name. Written), stat_raises = (\<lambda>name. False)\<rparr>"

definition offline :: env where
  "offline = env_of (\<lambda>n rq. (RequestError ''connection refused'', 1))"

definition throttled :: env where
  "throttled =
     env_of (\<lambda>n rq. (Reply \<lparr>status_code = 429, http_error = ''429 Client Error'',
                              body = Inl ''Expecting value''\<rparr>, 1))"

definition provider :: "json \<Rightarrow> json \<Rightarrow> env" where
  "provider coins prices =
     env_of (\<lambda>n rq. if fst rq = BASE_URL @ ''/coins/list'' then ok_reply coins
                     else ok_reply prices)"

text \<open>
  A cache directory that may not be searched, one that cannot be written, and two zones in which the clocks change at
  the instant 50000: back by an hour, and forward by an hour.
\<close>

definition locked :: env where
  "locked = offline\<lparr>stat_raises := (\<lambda>name. True)\<rparr>"




text \<open>
  A reply body with an embedded error that is not a rate limit, and a provider whose first
  answer is a timeout and whose later answers carry the body \<open>data\<close>.
\<close>

definition other_error :: json where
  "other_error = JObj [(''status'', JObj [(''error_code'', JInt 404)])]"

definition flaky :: "json \<Rightarrow> env" where
  "flaky data =
     env_of (\<lambda>n rq. if n = 0 then (RequestError ''timed out'', 10) else ok_reply data)"

text \<open>A coin list that gives one id to two symbols, and a quote for that id.\<close>

definition shared_id_coins :: json where
  "shared_id_coins =
     JArr [JObj [(''id'', JStr ''x''), (''symbol'', JStr ''aaa''), (''name'', JStr ''A'')],
           JObj [(''id'', JStr ''x''), (''symbol'', JStr ''bbb''), (''name'', JStr ''B'')]]"

definition shared_quote :: json where
  "shared_quote = JObj [(''x'', JObj [(''usd'', JInt 7)])]"

text \<open>
  A coin list whose entry has no \<^verbatim>\<open>"symbol"\<close>, and a world whose coin-list cache file, written
  100 seconds before, is not UTF-8.
\<close>

definition nameless_coins :: json where
  "nameless_coins = JArr [JObj [(''id'', JStr ''bitcoin'')]]"

definition garbled_cache :: world where
  "garbled_cache = start\<lparr>files := [''coin_list'' \<mapsto> \<lparr>mtime = 900, content = NotUtf8\<rparr>]\<rparr>"

section \<open>Properties of the failure tracker\<close>

lemma record_failures_Nil: "record_failures [] st = st"
  by (simp add: record_failures_def)

lemma record_failures_snoc:
  "record_failures (fs @ [(t, e)]) st = record_failure t e (record_failures fs st)"
  by (simp add: record_failures_def)

lemma record_failures_below:
  "consecutive_failures st + int (length fs) < 10 \<Longrightarrow>
   consecutive_failures (record_failures fs st) = consecutive_failures st + int (length fs) \<and>
   auto_pause_until (record_failures fs st) = auto_pause_until st \<and>
   paused (record_failures fs st) = paused st"
proof (induction fs rule: rev_induct)
  case Nil
  show ?case by (simp add: record_failures_Nil)
next
  case (snoc x fs)
  obtain t e where x: "x = (t, e)" by (cases x)
  from snoc.prems have "consecutive_failures st + int (length fs) < 9" by simp
  with snoc.IH show ?case
    by (simp add: x record_failures_snoc record_failure_def Let_def)
qed

text \<open>
  C1. From a fresh tracker, ten \<^verbatim>\<open>record_failure\<close> calls in a row (the list \<open>fs\<close> gives the
  clock reading and the message of each) arm \<^verbatim>\<open>auto_pause_until\<close> at the reading of the
  tenth call plus 30 minutes; \<^verbatim>\<open>should_skip()\<close> is then true at every time strictly before
  that timestamp, it is false at every time once \<^verbatim>\<open>resume()\<close> has been called, and it was
  false after each of the first nine calls. The armed timestamp is assumed not to be
  \<open>0.0\<close>, which Python takes as false: it is not for any reading of a clock that counts
  from 1970.
\<close>

theorem ten_failures_then_skip:
  assumes len: "length fs = 10"
      and nz: "fst (last fs) + 30 * 60 \<noteq> 0"
  shows "auto_pause_until (record_failures fs fresh_state) = Some (fst (last fs) + 30 * 60)
       \<and> (\<forall>t. t < fst (last fs) + 30 * 60 \<longrightarrow> should_skip t (record_failures fs fresh_state))
       \<and> (\<forall>t. \<not> should_skip t (resume (record_failures fs fresh_state)))
       \<and> (\<forall>k t. k < 10 \<longrightarrow> \<not> should_skip t (record_failures (take k fs) fresh_state))"
proof -
  from len have ne: "fs \<noteq> []" by auto
  define xs where "xs = butlast fs"
  obtain t e where le: "last fs = (t, e)" by (cases "last fs")
  have fs: "fs = xs @ [(t, e)]"
    using ne le xs_def by (metis append_butlast_last_id)
  have lx: "length xs = 9" using len fs by simp
  have below: "consecutive_failures (record_failures xs fresh_state) = 9"
    using record_failures_below [of fresh_state xs] lx by (simp add: fresh_state_def)
  have until: "auto_pause_until (record_failures fs fresh_state) = Some (t + 30 * 60)"
    by (simp add: fs record_failures_snoc record_failure_def Let_def below)
  have early: "\<not> should_skip s (record_failures (take k fs) fresh_state)" if "k < 10" for k s
  proof -
    have "length (take k fs) = k" using that len by simp
    then have "consecutive_failures fresh_state + int (length (take k fs)) < 10"
      using that by (simp add: fresh_state_def)
    from record_failures_below [OF this] show ?thesis
      by (simp add: should_skip_def fresh_state_def)
  qed
  show ?thesis
    using until nz le early by (simp add: should_skip_def resume_def)
qed

theorem ten_failures_then_skip_witness:
  "length (replicate 10 (1000 :: real, ''timeout'')) = 10
   \<and> fst (last (replicate 10 (1000 :: real, ''timeout''))) + 30 * 60 \<noteq> 0
   \<and> should_skip 2799 (record_failures (replicate 10 (1000, ''timeout'')) fresh_state)
   \<and> \<not> should_skip 2799 (resume (record_failures (replicate 10 (1000, ''timeout'')) fresh_state))
   \<and> \<not> should_skip 2799 (record_failures (take 9 (replicate 10 (1000, ''timeout''))) fresh_state)"
proof -
  have l: "length (replicate 10 (1000 :: real, ''timeout'')) = 10" by simp
  have n: "fst (last (replicate 10 (1000 :: real, ''timeout''))) + 30 * 60 \<noteq> 0" by simp
  have lt: "(2799 :: real) < fst (last (replicate 10 (1000 :: real, ''timeout''))) + 30 * 60" by simp
  from ten_failures_then_skip [OF l n] lt l n show ?thesis by simp
qed

text \<open>
  C2, as stated, fails: after the ten failures at time 1000 that arm the window at 2800,
  an eleventh failure at time 1500 moves \<^verbatim>\<open>auto_pause_until\<close> to 3300.
\<close>

theorem record_failure_rearms_counterexample:
  "auto_pause_until (record_failure 1500 ''timeout''
       (record_failures (replicate 10 (1000, ''timeout'')) fresh_state))
   \<noteq> auto_pause_until (record_failures (replicate 10 (1000, ''timeout'')) fresh_state)"
  by (simp add: record_failures_def record_failure_def fresh_state_def numeral_eq_Suc)

text \<open>
  C2, amended. Once the counter has reached the threshold of 10, every further
  \<^verbatim>\<open>record_failure\<close> call increments \<^verbatim>\<open>consecutive_failures\<close>, sets \<^verbatim>\<open>last_error\<close>, leaves
  \<^verbatim>\<open>paused\<close> alone and arms \<^verbatim>\<open>auto_pause_until\<close> anew, at the clock reading of that call plus
  30 minutes; the counter stays at or above the threshold, so the same holds of the call
  after it.
\<close>

theorem record_failure_rearms:
  assumes "10 \<le> consecutive_failures st"
  shows "consecutive_failures (record_failure t e st) = consecutive_failures st + 1
       \<and> last_error (record_failure t e st) = Some e
       \<and> auto_pause_until (record_failure t e st) = Some (t + 30 * 60)
       \<and> paused (record_failure t e st) = paused st
       \<and> 10 \<le> consecutive_failures (record_failure t e st)"
  using assms by (simp add: record_failure_def Let_def)

theorem record_failure_rearms_witness:
  "10 \<le> consecutive_failures (fresh_state\<lparr>consecutive_failures := 10, auto_pause_until := Some 2800\<rparr>)
   \<and> auto_pause_until (record_failure 1500 ''timeout''
        (fresh_state\<lparr>consecutive_failures := 10, auto_pause_until := Some 2800\<rparr>)) = Some 3300
   \<and> consecutive_failures (record_failure 1500 ''timeout''
        (fresh_state\<lparr>consecutive_failures := 10, auto_pause_until := Some 2800\<rparr>)) = 11"
proof -
  have h: "10 \<le> consecutive_failures
             (fresh_state\<lparr>consecutive_failures := 10, auto_pause_until := Some 2800\<rparr>)"
    by simp
  from record_failure_rearms [OF h, of 1500 "''timeout''"] h show ?thesis by simp
qed

text \<open>
  C9, as stated, fails: once the window armed at 2800 has elapsed (time 5000),
  \<^verbatim>\<open>should_skip()\<close> is false and \<^verbatim>\<open>get_auto_resume_remaining()\<close> returns 0, not \<^verbatim>\<open>None\<close>.
\<close>

theorem remaining_after_window_counterexample:
  "get_auto_resume_remaining 5000 (record_failures (replicate 10 (1000, ''timeout'')) fresh_state) = Some 0
   \<and> \<not> should_skip 5000 (record_failures (replicate 10 (1000, ''timeout'')) fresh_state)"
  by (simp add: record_failures_def record_failure_def fresh_state_def numeral_eq_Suc
      get_auto_resume_remaining_def should_skip_def py_int_def)

text \<open>
  C9, amended. While \<^verbatim>\<open>auto_pause_until\<close> is set (to a timestamp other than \<open>0.0\<close>),
  \<^verbatim>\<open>get_auto_resume_remaining()\<close> returns the whole seconds left until it, and 0 from the
  moment the window has elapsed; it returns \<^verbatim>\<open>None\<close> exactly when \<^verbatim>\<open>auto_pause_until\<close> is
  unset (or \<open>0.0\<close>), in particular after \<^verbatim>\<open>resume()\<close>.
\<close>

theorem remaining_whole_seconds:
  "(auto_pause_until st = Some u \<and> u \<noteq> 0 \<longrightarrow>
       get_auto_resume_remaining t st = Some (if t < u then \<lfloor>u - t\<rfloor> else 0))
   \<and> (get_auto_resume_remaining t st = None \<longleftrightarrow>
        auto_pause_until st = None \<or> auto_pause_until st = Some 0)
   \<and> get_auto_resume_remaining t (resume st) = None"
proof -
  have a: "max 0 (py_int (u - t)) = (if t < u then \<lfloor>u - t\<rfloor> else 0)"
  proof (cases "t < u")
    case True
    then have "0 \<le> u - t" by simp
    then show ?thesis using True by (simp add: py_int_def max_def)
  next
    case False
    then have le: "u - t \<le> 0" by simp
    then have "py_int (u - t) \<le> 0"
      by (cases "u - t = 0") (simp_all add: py_int_def ceiling_le_zero)
    then show ?thesis using False by (simp add: max_def)
  qed
  show ?thesis
    using a by (auto simp: get_auto_resume_remaining_def resume_def Let_def split: option.splits)
qed

theorem remaining_whole_seconds_witness:
  "auto_pause_until (fresh_state\<lparr>auto_pause_until := Some 2800\<rparr>) = Some 2800 \<and> (2800 :: real) \<noteq> 0
   \<and> get_auto_resume_remaining 1000.5 (fresh_state\<lparr>auto_pause_until := Some 2800\<rparr>) = Some 1799
   \<and> get_auto_resume_remaining 5000 (fresh_state\<lparr>auto_pause_until := Some 2800\<rparr>) = Some 0
   \<and> get_auto_resume_remaining 5000 (resume (fresh_state\<lparr>auto_pause_until := Some 2800\<rparr>)) = None"
proof -
  have h: "auto_pause_until (fresh_state\<lparr>auto_pause_until := Some 2800\<rparr>) = Some 2800
           \<and> (2800 :: real) \<noteq> 0"
    by simp
  have f: "\<lfloor>2800 - 1000.5 :: real\<rfloor> = 1799" by linarith
  from remaining_whole_seconds [of "fresh_state\<lparr>auto_pause_until := Some 2800\<rparr>" 2800 "1000.5"]
       remaining_whole_seconds [of "fresh_state\<lparr>auto_pause_until := Some 2800\<rparr>" 2800 5000]
       h f
  show ?thesis by simp
qed


section \<open>Properties of the cache\<close>




section \<open>What a call of the pipeline can change\<close>

lemma one_attempt_frame:
  assumes "one_attempt e rq w = (out, w1)"
  shows "state w1 = state w \<and> files w1 = files w \<and> sent w1 = sent w @ [rq]"
  using assms by (auto simp: one_attempt_def Let_def split: prod.splits)

lemma one_attempt_success:
  assumes "one_attempt e rq w = (Success d, w1)"
  shows "\<exists>n r t. net e n rq = (Reply r, t) \<and> body r = Inr d"
  using assms
  by (auto simp: one_attempt_def do_request_def Let_def
           split: prod.splits attempt.splits if_splits sum.splits option.splits)

lemma attempts_frame:
  "attempts e c rq r w = (out, w1) \<Longrightarrow>
     state w1 = state w \<and> files w1 = files w \<and> (\<exists>k. sent w1 = sent w @ replicate (Suc k) rq)"
proof (induction r arbitrary: w)
  case 0
  then show ?case using one_attempt_frame [of e rq w out w1]
    by (auto intro: exI [of _ 0])
next
  case (Suc r)
  obtain o1 w2 where one: "one_attempt e rq w = (o1, w2)" by (cases "one_attempt e rq w")
  note fr = one_attempt_frame [OF one]
  show ?case
  proof (cases "\<exists>m. o1 = Retryable m \<and> \<not> retry_wait c < 0")
    case True
    then obtain m where m: "o1 = Retryable m" and nn: "\<not> retry_wait c < 0" by blast
    let ?w = "w2\<lparr>now := now w2 + real_of_int (retry_wait c)\<rparr>"
    from Suc.prems one m nn have "attempts e c rq r ?w = (out, w1)" by simp
    from Suc.IH [OF this] obtain k where
      "state w1 = state w2" "files w1 = files w2" "sent w1 = sent w2 @ replicate (Suc k) rq"
      by auto
    with fr have "state w1 = state w \<and> files w1 = files w
                  \<and> sent w1 = sent w @ replicate (Suc (Suc k)) rq"
      by (simp add: replicate_app_Cons_same)
    then show ?thesis by blast
  next
    case False
    with Suc.prems one have "w1 = w2"
      by (cases o1) (auto split: if_splits)
    with fr show ?thesis by (auto intro: exI [of _ 0])
  qed
qed

lemma attempts_success:
  "attempts e c rq r w = (Success d, w1) \<Longrightarrow> \<exists>n r t. net e n rq = (Reply r, t) \<and> body r = Inr d"
proof (induction r arbitrary: w)
  case 0
  then show ?case using one_attempt_success [of e rq w d w1] by simp
next
  case (Suc r)
  obtain o1 w2 where one: "one_attempt e rq w = (o1, w2)" by (cases "one_attempt e rq w")
  show ?case
  proof (cases o1)
    case (Success d')
    with Suc.prems one have "d' = d" "w2 = w1" by auto
    with one Success show ?thesis using one_attempt_success [of e rq w d w1] by simp
  next
    case (Retryable m)
    with Suc.prems one show ?thesis using Suc.IH by (auto split: if_splits)
  qed (use Suc.prems one in auto)
qed

lemma fail_with_frame:
  assumes "fail_with c m w = (res, w')"
  shows "files w' = files w \<and> sent w' = sent w \<and> now w' = now w
       \<and> (\<forall>d. res = Inr d \<longrightarrow> d = JNull)
       \<and> (notify_state_change c (state w') = None \<longrightarrow> res = Inr JNull)"
  using assms by (auto simp: fail_with_def Let_def split: option.splits)

lemma make_request_frame:
  assumes "make_request e c rq w = (res, w')"
  shows "files w' = files w \<and> (\<exists>k. sent w' = sent w @ replicate k rq)
       \<and> (\<forall>d. res = Inr d \<longrightarrow> d = JNull \<or> (\<exists>n r t. net e n rq = (Reply r, t) \<and> body r = Inr d))
       \<and> ((\<forall>st. notify_state_change c st = None) \<longrightarrow> (\<exists>d. res = Inr d))"
proof (cases "should_skip (now w) (state w)")
  case True
  with assms show ?thesis by (auto simp: make_request_def intro: exI [of _ 0])
next
  case False
  obtain out w1 where att: "attempts e c rq (nat (retry_attempts c - 1)) w = (out, w1)"
    by (cases "attempts e c rq (nat (retry_attempts c - 1)) w")
  from attempts_frame [OF att] obtain k where
    fr: "state w1 = state w" "files w1 = files w" "sent w1 = sent w @ replicate (Suc k) rq"
    by auto
  have sentk: "\<exists>k. sent w1 = sent w @ replicate k rq" using fr(3) by blast
  show ?thesis
  proof (cases out)
    case (Success d)
    from attempts_success [OF att [unfolded Success]] have src:
      "\<exists>n r t. net e n rq = (Reply r, t) \<and> body r = Inr d" .
    let ?w2 = "w1\<lparr>state := record_success (state w1)\<rparr>"
    show ?thesis
    proof (cases "notify_state_change c (state ?w2)")
      case None
      with assms False att Success have "res = Inr d" "w' = ?w2"
        by (auto simp: make_request_def Let_def)
      with fr sentk src show ?thesis by auto
    next
      case (Some m)
      with assms False att Success have fw: "fail_with c (raised_text m) ?w2 = (res, w')"
        by (auto simp: make_request_def Let_def)
      from fail_with_frame [OF fw] fr sentk show ?thesis by auto
    qed
  next
    case (RateLimit m)
    with assms False att have fw: "fail_with c (''Rate limited: '' @ m) w1 = (res, w')"
      by (auto simp: make_request_def)
    from fail_with_frame [OF fw] fr sentk show ?thesis by auto
  next
    case (Retryable m)
    with assms False att have fw: "fail_with c m w1 = (res, w')"
      by (auto simp: make_request_def)
    from fail_with_frame [OF fw] fr sentk show ?thesis by auto
  next
    case (Fatal m)
    with assms False att have fw: "fail_with c m w1 = (res, w')"
      by (auto simp: make_request_def)
    from fail_with_frame [OF fw] fr sentk show ?thesis by auto
  qed
qed





text \<open>The definitions a concrete run unfolds.\<close>

lemmas run_defs = get_prices_def get_price_def get_coin_list_def make_request_def fail_with_def
  one_attempt_def do_request_def embedded_rate_limit_def notify_state_change_def load_cache_def
  save_cache_def is_cache_valid_def local_time_def should_skip_def record_failure_def
  record_success_def symbol_to_id_def coin_entry_def price_request_def ascii_lower_def
  ascii_lower_char_def small_int_def plain_client_def raising_client_def start_def ok_reply_def
  two_coins_def env_of_def offline_def locked_def throttled_def provider_def flaky_def fresh_state_def
  BASE_URL_def default_coins_def CACHE_DURATION_def py_str_def equals_429_def btc_quote_def
  null_quote_def other_error_def shared_id_coins_def shared_quote_def nameless_coins_def garbled_cache_def flat_quote_def
  Let_def numeral_eq_Suc

section \<open>Properties of the request pipeline\<close>

lemma attempts_first_final:
  assumes "one_attempt e rq w = (out, w1)" and "\<And>m. out \<noteq> Retryable m"
  shows "attempts e c rq r w = (out, w1)"
  using assms by (cases r; cases out) auto

lemma last_error_record_failure: "last_error (record_failure t m st) = Some m"
  by (simp add: record_failure_def Let_def)


text \<open>
  C4. A rate-limit answer to the first attempt, either status 429 or a status-200 reply
  whose JSON body is a dict with a \<^verbatim>\<open>"status"\<close> dict whose \<^verbatim>\<open>"error_code"\<close> equals 429, ends
  the pipeline at once, whatever the attempt budget (3 in the example run): exactly one
  request is sent, the outcome is recorded by \<^verbatim>\<open>record_failure\<close> with a message that starts
  with \<^verbatim>\<open>Rate limited: \<close>, and no payload is returned (\<^verbatim>\<open>None\<close>, or the exception of an
  observer that raises).
\<close>

theorem rate_limit_short_circuits:
  assumes entry: "\<not> should_skip (now w) (state w)"
      and reply: "net e (length (sent w)) rq = (Reply r, took)"
      and limited: "status_code r = 429 \<or>
                    (status_code r = 200 \<and> body r = Inr (JObj kvs)
                     \<and> map_of kvs ''status'' = Some (JObj skvs)
                     \<and> map_of skvs ''error_code'' = Some v \<and> equals_429 v)"
      and msg: "msg = (if status_code r = 429 then ''Rate limited by API''
                else py_str (py_repr e)
                       (case map_of skvs ''error_message'' of
                          None \<Rightarrow> JStr ''Rate limited'' | Some v \<Rightarrow> v))"
      and res: "make_request e c rq w = (res, w')"
  shows "sent w' = sent w @ [rq]
       \<and> state w' = record_failure (now w + took) (''Rate limited: '' @ msg) (state w)
       \<and> last_error (state w') = Some (''Rate limited: '' @ msg)
       \<and> res = (case notify_state_change c (state w') of
                  None \<Rightarrow> Inr JNull | Some m \<Rightarrow> Inl (ObserverRaised m))"
proof -
  define w1 where "w1 = w\<lparr>now := now w + took, sent := sent w @ [rq]\<rparr>"
  have dr: "do_request (py_repr e) (Reply r) = RateLimit msg"
    using limited msg by (auto simp: do_request_def embedded_rate_limit_def)
  have one: "one_attempt e rq w = (RateLimit msg, w1)"
    by (simp add: one_attempt_def reply dr w1_def)
  have att: "attempts e c rq (nat (retry_attempts c - 1)) w = (RateLimit msg, w1)"
    by (rule attempts_first_final [OF one]) simp
  have mr: "make_request e c rq w = fail_with c (''Rate limited: '' @ msg) w1"
    using entry by (simp add: make_request_def att)
  show ?thesis
    using res mr
    by (auto simp: fail_with_def Let_def w1_def last_error_record_failure split: option.splits)
qed

theorem rate_limit_short_circuits_witness:
  "\<not> should_skip (now start) (state start)
   \<and> retry_attempts plain_client = 3
   \<and> net throttled (length (sent start)) (BASE_URL @ ''/simple/price'', [])
       = (Reply \<lparr>status_code = 429, http_error = ''429 Client Error'',
                 body = Inl ''Expecting value''\<rparr>, 1)
   \<and> sent (snd (make_request throttled plain_client (BASE_URL @ ''/simple/price'', []) start))
       = [(BASE_URL @ ''/simple/price'', [])]
   \<and> last_error (state (snd (make_request throttled plain_client
                                (BASE_URL @ ''/simple/price'', []) start)))
       = Some ''Rate limited: Rate limited by API''
   \<and> fst (make_request throttled plain_client (BASE_URL @ ''/simple/price'', []) start)
       = Inr JNull"
proof -
  let ?rq = "(BASE_URL @ ''/simple/price'', [])"
  let ?r = "\<lparr>status_code = 429, http_error = ''429 Client Error'', body = Inl ''Expecting value''\<rparr>"
  have entry: "\<not> should_skip (now start) (state start)"
    by (simp add: should_skip_def start_def fresh_state_def)
  have reply: "net throttled (length (sent start)) ?rq = (Reply ?r, 1)"
    by (simp add: throttled_def env_of_def)
  have limited: "status_code ?r = 429 \<or>
                    (status_code ?r = 200 \<and> body ?r = Inr (JObj [])
                     \<and> map_of [] ''status'' = Some (JObj [])
                     \<and> map_of [] ''error_code'' = Some JNull \<and> equals_429 JNull)"
    by simp
  have msg: "''Rate limited by API'' = (if status_code ?r = 429 then ''Rate limited by API''
                else py_str (py_repr throttled)
                       (case map_of [] ''error_message'' of
                          None \<Rightarrow> JStr ''Rate limited'' | Some v \<Rightarrow> v))"
    by simp
  have res: "make_request throttled plain_client ?rq start =
               (fst (make_request throttled plain_client ?rq start),
                snd (make_request throttled plain_client ?rq start))"
    by simp
  have quiet: "notify_state_change plain_client st = None" for st
    by (simp add: notify_state_change_def plain_client_def)
  have s0: "sent start = []" and ra: "retry_attempts plain_client = 3"
    by (simp_all add: start_def plain_client_def)
  from rate_limit_short_circuits [OF entry reply limited msg res] entry reply quiet s0 ra
  show ?thesis by (simp add: last_error_record_failure)
qed




section \<open>Properties of the coin list and of the price lookup\<close>

lemma resolve_none:
  "\<forall>s \<in> set symbols. s2i (low s) = None \<Longrightarrow> resolve low s2i symbols acc = Inr acc"
  by (induction symbols) (cases acc; simp add: Let_def)+

lemma get_coin_list_sent:
  assumes "get_coin_list e c w = (res, w1)"
  shows "(\<exists>k. sent w1 = sent w @ replicate k (BASE_URL @ ''/coins/list'', []))
       \<and> ((\<exists>d. load_cache e (now w) ''coin_list'' (files w) = Inr d \<and> truthy d) \<longrightarrow> w1 = w)"
proof (cases "load_cache e (now w) ''coin_list'' (files w)")
  case (Inl x)
  with assms show ?thesis by (auto simp: get_coin_list_def intro: exI [of _ 0])
next
  case (Inr cached)
  show ?thesis
  proof (cases "truthy cached")
    case True
    with assms Inr show ?thesis by (auto simp: get_coin_list_def intro: exI [of _ 0])
  next
    case False
    obtain r1 w2 where mr: "make_request e c (BASE_URL @ ''/coins/list'', []) w = (r1, w2)"
      by (cases "make_request e c (BASE_URL @ ''/coins/list'', []) w")
    from make_request_frame [OF mr] obtain k where
      k: "sent w2 = sent w @ replicate k (BASE_URL @ ''/coins/list'', [])" by auto
    from assms Inr False mr have "sent w1 = sent w2"
      by (auto simp: get_coin_list_def split: sum.splits if_splits)
    with k Inr False show ?thesis by auto
  qed
qed






text \<open>
  C6, as stated, fails in its third case. With an empty cache and no connection, a request
  for the unknown symbol \<open>zzz\<close> returns the empty mapping, but only after the coin-list
  lookup has made three network calls and recorded a failure in the tracker.
\<close>

theorem get_prices_unresolved_counterexample:
  "fst (get_prices offline plain_client [''zzz''] ''usd'' start) = Inr Map.empty
   \<and> sent (snd (get_prices offline plain_client [''zzz''] ''usd'' start))
       = [(BASE_URL @ ''/coins/list'', []), (BASE_URL @ ''/coins/list'', []),
          (BASE_URL @ ''/coins/list'', [])]
   \<and> sent start = []
   \<and> consecutive_failures (state (snd (get_prices offline plain_client [''zzz''] ''usd'' start))) = 1
   \<and> last_error (state (snd (get_prices offline plain_client [''zzz''] ''usd'' start)))
       = Some ''connection refused''
   \<and> consecutive_failures (state start) = 0
   \<and> last_error (state start) = None"
  by (simp add: run_defs)

text \<open>
  C6, amended. \<^verbatim>\<open>get_prices\<close> returns the empty mapping with no network call and nothing
  changed, the tracker included, when the symbol list is empty or \<^verbatim>\<open>should_skip()\<close> is true
  at entry. When no requested symbol resolves to a provider id, it returns the empty
  mapping without sending a price request: what has changed is what the coin-list lookup
  changed, the only requests sent are coin-list requests, and nothing at all has changed
  when the coin list came from a valid cache file.
\<close>

theorem get_prices_early_return:
  "(symbols = [] \<or> should_skip (now w) (state w) \<longrightarrow>
       get_prices e c symbols vs w = (Inr Map.empty, w))
   \<and> (symbols \<noteq> [] \<and> \<not> should_skip (now w) (state w)
      \<and> get_coin_list e c w = (Inr coins, w1) \<and> symbol_to_id (str_lower e) coins = Inr s2i
      \<and> (\<forall>s \<in> set symbols. s2i (str_lower e s) = None) \<longrightarrow>
       get_prices e c symbols vs w = (Inr Map.empty, w1)
       \<and> (\<exists>k. sent w1 = sent w @ replicate k (BASE_URL @ ''/coins/list'', []))
       \<and> ((\<exists>d. load_cache e (now w) ''coin_list'' (files w) = Inr d \<and> truthy d) \<longrightarrow> w1 = w))"
proof -
  have a: "get_prices e c symbols vs w = (Inr Map.empty, w)"
    if "symbols = [] \<or> should_skip (now w) (state w)"
    using that by (auto simp: get_prices_def)
  have b: "get_prices e c symbols vs w = (Inr Map.empty, w1)"
    if "symbols \<noteq> []" "\<not> should_skip (now w) (state w)"
       "get_coin_list e c w = (Inr coins, w1)" "symbol_to_id (str_lower e) coins = Inr s2i"
       "\<forall>s \<in> set symbols. s2i (str_lower e s) = None"
    using that
      resolve_none [where low = "str_lower e" and ?s2i = s2i and symbols = symbols
                      and acc = "([], Map.empty)"]
    by (simp add: get_prices_def)
  show ?thesis using a b get_coin_list_sent [of e c w "Inr coins" w1] by blast
qed

theorem get_prices_early_return_witness:
  "should_skip (now (start\<lparr>state := fresh_state\<lparr>paused := True\<rparr>\<rparr>))
               (state (start\<lparr>state := fresh_state\<lparr>paused := True\<rparr>\<rparr>))
   \<and> get_prices offline plain_client [''btc''] ''usd'' (start\<lparr>state := fresh_state\<lparr>paused := True\<rparr>\<rparr>)
       = (Inr Map.empty, start\<lparr>state := fresh_state\<lparr>paused := True\<rparr>\<rparr>)
   \<and> get_prices offline plain_client [] ''usd'' start = (Inr Map.empty, start)
   \<and> [''zzz''] \<noteq> []
   \<and> \<not> should_skip (now start) (state start)
   \<and> get_coin_list offline plain_client start
       = (Inr default_coins, snd (get_coin_list offline plain_client start))
   \<and> symbol_to_id (str_lower offline) default_coins
       = Inr [''btc'' \<mapsto> JStr ''bitcoin'', ''eth'' \<mapsto> JStr ''ethereum'']
   \<and> [''btc'' \<mapsto> JStr ''bitcoin'', ''eth'' \<mapsto> JStr ''ethereum''] (str_lower offline ''zzz'') = None
   \<and> get_prices offline plain_client [''zzz''] ''usd'' start
       = (Inr Map.empty, snd (get_coin_list offline plain_client start))"
proof -
  let ?pw = "start\<lparr>state := fresh_state\<lparr>paused := True\<rparr>\<rparr>"
  let ?s2i = "[''btc'' \<mapsto> JStr ''bitcoin'', ''eth'' \<mapsto> JStr ''ethereum'']"
  have sl: "str_lower offline = ascii_lower" by (simp add: offline_def env_of_def)
  have p: "should_skip (now ?pw) (state ?pw)" by (simp add: should_skip_def)
  have n: "\<not> should_skip (now start) (state start)"
    by (simp add: should_skip_def start_def fresh_state_def)
  have cl: "get_coin_list offline plain_client start
              = (Inr default_coins, snd (get_coin_list offline plain_client start))"
    by (rule prod_eqI) (simp_all add: run_defs)
  have ix: "symbol_to_id (str_lower offline) default_coins = Inr ?s2i"
    by (simp add: sl default_coins_def symbol_to_id_def coin_entry_def ascii_lower_def
          ascii_lower_char_def)
  have un: "?s2i (str_lower offline ''zzz'') = None"
    by (simp add: sl ascii_lower_def ascii_lower_char_def)
  have un': "\<forall>s \<in> set [''zzz'']. ?s2i (str_lower offline s) = None" using un by simp
  from get_prices_early_return
         [where symbols = "[''btc'']" and w = ?pw and e = offline and c = plain_client
            and vs = "''usd''"]
       get_prices_early_return
         [where symbols = "[]" and w = start and e = offline and c = plain_client
            and vs = "''usd''"]
       get_prices_early_return
         [where symbols = "[''zzz'']" and w = start and e = offline and c = plain_client
            and vs = "''usd''" and coins = default_coins
            and ?w1.0 = "snd (get_coin_list offline plain_client start)" and s2i = ?s2i]
       p n cl ix un un'
  show ?thesis by simp
qed

section \<open>The symbols of a price result\<close>




text \<open>
  Two symbols resolve to the same id only if the coin list gives one id to two coins:
  when the ids of the coin list are pairwise distinct, the index is injective.
\<close>

lemma coin_entry_id:
  "coin_entry low coin = Inr (k, v) \<Longrightarrow> py_getitem coin ''id'' = Inr v"
  by (auto simp: coin_entry_def split: sum.splits)

lemma index_coins_inj:
  assumes "index_coins low coins m = Inr m'"
      and "distinct (map (\<lambda>coin. py_getitem coin ''id'') coins)"
      and "inj_on m (dom m)"
      and "\<forall>k v. m k = Some v \<longrightarrow> Inr v \<notin> (\<lambda>coin. py_getitem coin ''id'') ` set coins"
  shows "inj_on m' (dom m')"
  using assms
proof (induction coins arbitrary: m)
  case Nil
  then show ?case by simp
next
  case (Cons coin coins)
  from Cons.prems(1) obtain k v where ce: "coin_entry low coin = Inr (k, v)"
    and rest: "index_coins low coins (m(k \<mapsto> v)) = Inr m'"
    by (auto split: sum.splits)
  note idv = coin_entry_id [OF ce]
  from Cons.prems(2) have d: "distinct (map (\<lambda>coin. py_getitem coin ''id'') coins)"
    and fresh: "Inr v \<notin> (\<lambda>coin. py_getitem coin ''id'') ` set coins"
    using idv by auto
  have other: "v' \<noteq> v" if "m k' = Some v'" for k' v'
    using Cons.prems(4) that idv by auto
  have inj: "inj_on (m(k \<mapsto> v)) (dom (m(k \<mapsto> v)))"
  proof (rule inj_onI)
    fix a b
    assume a: "a \<in> dom (m(k \<mapsto> v))" and b: "b \<in> dom (m(k \<mapsto> v))"
       and eq: "(m(k \<mapsto> v)) a = (m(k \<mapsto> v)) b"
    show "a = b"
    proof (cases "a = k")
      case True
      with eq other show ?thesis by (cases "b = k") (auto simp: eq_commute)
    next
      case False
      show ?thesis
      proof (cases "b = k")
        case True
        with False eq other show ?thesis by auto
      next
        case bk: False
        with False a b eq have "m a = m b" "a \<in> dom m" "b \<in> dom m" by auto
        with Cons.prems(3) show ?thesis by (auto dest: inj_onD)
      qed
    qed
  qed
  have unused: "\<forall>k' v'. (m(k \<mapsto> v)) k' = Some v'
                  \<longrightarrow> Inr v' \<notin> (\<lambda>coin. py_getitem coin ''id'') ` set coins"
    using Cons.prems(4) fresh by auto
  from Cons.IH [OF rest d inj unused] show ?case .
qed

lemma distinct_ids_resolve_apart:
  assumes "symbol_to_id low (JArr coins) = Inr s2i"
      and "distinct (map (\<lambda>coin. py_getitem coin ''id'') coins)"
  shows "inj_on s2i (low ` set symbols \<inter> dom s2i)"
proof -
  from assms(1) have "index_coins low coins Map.empty = Inr s2i"
    by (simp add: symbol_to_id_def)
  from index_coins_inj [OF this assms(2)] have "inj_on s2i (dom s2i)" by simp
  then show ?thesis by (rule inj_on_subset) auto
qed






section \<open>Exceptions that reach the caller\<close>














end
